theory Spec2Isabelle
  imports Main
begin

section \<open>Python strings\<close>

text \<open>
  A Python \<^verbatim>\<open>str\<close> is a sequence of Unicode code points, and \<^verbatim>\<open>len\<close> and slicing count
  code points. A string is therefore a list of code points, each a natural number;
  \<open>lit\<close> turns a literal of the source into that list.
\<close>

type_synonym pystr = "nat list"

definition lit :: "string \<Rightarrow> pystr" where
  "lit s = map of_char s"

text \<open>
  The characters \<^verbatim>\<open>str.strip()\<close> removes when it is called without argument (the
  code points CPython's \<^verbatim>\<open>Py_UNICODE_ISSPACE\<close> accepts), and the characters at which
  \<^verbatim>\<open>str.splitlines()\<close> ends a line.
\<close>

definition isspace :: "nat \<Rightarrow> bool" where
  "isspace c \<longleftrightarrow>
     (9 \<le> c \<and> c \<le> 13) \<or> (28 \<le> c \<and> c \<le> 32) \<or> c = 133 \<or> c = 160 \<or> c = 5760 \<or>
     (8192 \<le> c \<and> c \<le> 8202) \<or> c = 8232 \<or> c = 8233 \<or> c = 8239 \<or> c = 8287 \<or> c = 12288"

definition is_linebreak :: "nat \<Rightarrow> bool" where
  "is_linebreak c \<longleftrightarrow>
     (10 \<le> c \<and> c \<le> 13) \<or> (28 \<le> c \<and> c \<le> 30) \<or> c = 133 \<or> c = 8232 \<or> c = 8233"

text \<open>\<^verbatim>\<open>s.strip()\<close>: leading and trailing whitespace removed.\<close>

definition str_strip :: "pystr \<Rightarrow> pystr" where
  "str_strip s = rev (dropWhile isspace (rev (dropWhile isspace s)))"

text \<open>Puts one more character in front of the first piece of a split.\<close>

fun push_front :: "nat \<Rightarrow> pystr list \<Rightarrow> pystr list" where
  "push_front c [] = [[c]]"
| "push_front c (l # ls) = (c # l) # ls"

text \<open>
  \<^verbatim>\<open>s.splitlines()\<close>: the lines of \<open>s\<close> without their line ends; a carriage return
  followed by a line feed is one line end, and a line end as last character opens
  no further line.
\<close>

fun str_splitlines :: "pystr \<Rightarrow> pystr list" where
  "str_splitlines [] = []"
| "str_splitlines [c] = (if is_linebreak c then [[]] else [[c]])"
| "str_splitlines (c # d # s) =
     (if c = 13 \<and> d = 10 then [] # str_splitlines s
      else if is_linebreak c then [] # str_splitlines (d # s)
      else push_front c (str_splitlines (d # s)))"

text \<open>
  \<^verbatim>\<open>s.split("  ")\<close>: the pieces of \<open>s\<close> between the occurrences of two spaces (code
  point 32), found from the left and not overlapping.
\<close>

fun str_split_sp2 :: "pystr \<Rightarrow> pystr list" where
  "str_split_sp2 [] = [[]]"
| "str_split_sp2 [c] = [[c]]"
| "str_split_sp2 (c # d # s) =
     (if c = 32 \<and> d = 32 then [] # str_split_sp2 s
      else push_front c (str_split_sp2 (d # s)))"

text \<open>\<^verbatim>\<open>sep.join(xs)\<close>.\<close>

fun str_join :: "pystr \<Rightarrow> pystr list \<Rightarrow> pystr" where
  "str_join sep [] = []"
| "str_join sep [x] = x"
| "str_join sep (x # y # ys) = x @ sep @ str_join sep (y # ys)"

text \<open>\<^verbatim>\<open>str(n)\<close> for a length: its decimal digits.\<close>

function str_of_nat :: "nat \<Rightarrow> pystr" where
  "str_of_nat n = (if n < 10 then [48 + n] else str_of_nat (n div 10) @ [48 + n mod 10])"
  by pat_completeness auto
termination
  by (relation "measure id") auto

section \<open>The parsed tree\<close>

text \<open>
  What \<^verbatim>\<open>BeautifulSoup(page_source, 'html.parser')\<close> builds: tags with their name and
  contents, and strings. \<open>NavigableString\<close> is a string that counts as text
  (\<^verbatim>\<open>get_text\<close> collects it); \<open>Comment\<close> stands for the string classes \<^verbatim>\<open>get_text\<close>
  leaves out (comments, declarations, doctypes, processing instructions). The soup
  itself is the tag named \<^verbatim>\<open>[document]\<close>. The script reads no attribute, so the
  model keeps none.

  Python holds the elements of a tree by reference. A reference is the position of
  the element in the tree, the list of child indices from the root. So that the
  references taken before the loop of lines 52-53 stay valid while it runs,
  \<^verbatim>\<open>decompose\<close> leaves the marker \<open>Decomposed\<close> where the destroyed tag was: it has no
  contents and no text, as a tag that is no longer in the tree.
\<close>

datatype node =
    NavigableString pystr
  | Comment pystr
  | Tag pystr "node list"
  | Decomposed

type_synonym ref = "nat list"

text \<open>\<^verbatim>\<open>tag.descendants\<close>: every element below the tag, in document order.\<close>

fun descendants :: "node \<Rightarrow> node list" where
  "descendants (Tag name cs) = concat (map (\<lambda>c. c # descendants c) cs)"
| "descendants (NavigableString s) = []"
| "descendants (Comment s) = []"
| "descendants Decomposed = []"

text \<open>The match of \<^verbatim>\<open>find_all\<close> on a name or a list of names: a tag of one of the names.\<close>

fun is_tag_named :: "pystr list \<Rightarrow> node \<Rightarrow> bool" where
  "is_tag_named names (Tag name cs) = (name \<in> set names)"
| "is_tag_named names (NavigableString s) = False"
| "is_tag_named names (Comment s) = False"
| "is_tag_named names Decomposed = False"

text \<open>
  \<^verbatim>\<open>tag.find_all(names)\<close>, which \<^verbatim>\<open>tag(names)\<close> abbreviates: the matching descendants
  in document order, each with its reference. \<open>find_all_from names i cs\<close> searches
  the children \<open>cs\<close>, the first of which is child number \<open>i\<close> of its parent.
\<close>

fun find_all :: "pystr list \<Rightarrow> node \<Rightarrow> (ref \<times> node) list"
  and find_all_from :: "pystr list \<Rightarrow> nat \<Rightarrow> node list \<Rightarrow> (ref \<times> node) list" where
  "find_all names (Tag name cs) = find_all_from names 0 cs"
| "find_all names (NavigableString s) = []"
| "find_all names (Comment s) = []"
| "find_all names Decomposed = []"
| "find_all_from names i [] = []"
| "find_all_from names i (c # cs) =
     (if is_tag_named names c then [([i], c)] else [])
     @ map (\<lambda>(r, e). (i # r, e)) (find_all names c)
     @ find_all_from names (Suc i) cs"

text \<open>\<^verbatim>\<open>tag.find(name)\<close>: the first result of \<^verbatim>\<open>find_all\<close>, or \<^verbatim>\<open>None\<close>.\<close>

definition find_tag :: "pystr \<Rightarrow> node \<Rightarrow> node option" where
  "find_tag name soup = (case find_all [name] soup of [] \<Rightarrow> None | (r, e) # _ \<Rightarrow> Some e)"

text \<open>
  \<^verbatim>\<open>element.decompose()\<close> for the element at a reference: the element leaves the
  tree. A reference below an element that is already destroyed designates nothing
  of the tree, and nothing changes.
\<close>

fun decompose :: "ref \<Rightarrow> node \<Rightarrow> node"
  and decompose_child :: "nat \<Rightarrow> ref \<Rightarrow> node list \<Rightarrow> node list" where
  "decompose [] t = Decomposed"
| "decompose (i # r) (Tag name cs) = Tag name (decompose_child i r cs)"
| "decompose (i # r) (NavigableString s) = NavigableString s"
| "decompose (i # r) (Comment s) = Comment s"
| "decompose (i # r) Decomposed = Decomposed"
| "decompose_child i r [] = []"
| "decompose_child 0 r (c # cs) = decompose r c # cs"
| "decompose_child (Suc i) r (c # cs) = c # decompose_child i r cs"

text \<open>\<^verbatim>\<open>tag.get_text()\<close>: the text strings below the tag, in document order, concatenated.\<close>

fun all_strings :: "node \<Rightarrow> pystr list" where
  "all_strings (NavigableString s) = [s]"
| "all_strings (Comment s) = []"
| "all_strings (Tag name cs) = concat (map all_strings cs)"
| "all_strings Decomposed = []"

definition get_text :: "node \<Rightarrow> pystr" where
  "get_text t = concat (all_strings t)"

section \<open>The world outside the script\<close>

text \<open>
  An exception carries its message \<^verbatim>\<open>str(e)\<close>. \<open>Exception\<close> is an instance of
  \<^verbatim>\<open>Exception\<close> or of a class derived from it; \<open>BaseException\<close> is an exception that
  does not derive from \<^verbatim>\<open>Exception\<close> (\<^verbatim>\<open>KeyboardInterrupt\<close>, \<^verbatim>\<open>SystemExit\<close>,
  \<^verbatim>\<open>GeneratorExit\<close>), which \<^verbatim>\<open>except Exception\<close> does not catch.
\<close>

datatype pyexn = Exception pystr | BaseException pystr

datatype handle = WebDriver nat

text \<open>The calls the script makes on the browser and the clock, in the order made.\<close>

datatype call =
    Chrome "pystr list"
  | Driver_get handle pystr
  | Sleep nat
  | Page_source handle
  | Driver_quit handle

text \<open>What the script puts on the page; \<open>St_in_tab\<close> is an element inside a tab.\<close>

datatype st_element =
    St_info pystr
  | St_success pystr
  | St_warning pystr
  | St_error pystr
  | St_tabs "pystr list"
  | St_subheader pystr
  | St_text_area pystr pystr
  | St_code pystr
  | St_write pystr
  | St_in_tab pystr st_element

text \<open>
  The state that outlives one run of the script: the entry of \<^verbatim>\<open>st.cache_resource\<close>
  for \<^verbatim>\<open>get_driver\<close> (the value the function returned and the elements it showed,
  \<open>None\<close> while it has not returned yet), the elements shown, and the calls made.
\<close>

record world =
  cache :: "(handle option \<times> st_element list) option"
  shown :: "st_element list"
  calls :: "call list"

text \<open>
  The libraries the script drives are not part of it. Their answers are
  parameters, each a function of the calls made so far: what
  \<^verbatim>\<open>webdriver.Chrome(...)\<close> of lines 25-28 (with the installation of the driver it
  asks for) returns or raises for the given options, what
  \<^verbatim>\<open>driver.get(url)\<close> raises, what \<^verbatim>\<open>driver.page_source\<close> returns or raises, and
  what the parser builds from a markup or raises.
\<close>

record env =
  chrome :: "call list \<Rightarrow> pystr list \<Rightarrow> pyexn + handle"
  driver_get :: "call list \<Rightarrow> handle \<Rightarrow> pystr \<Rightarrow> pyexn option"
  driver_page_source :: "call list \<Rightarrow> handle \<Rightarrow> pyexn + pystr"
  html_parser :: "pystr \<Rightarrow> pyexn + node"

definition st :: "st_element \<Rightarrow> world \<Rightarrow> world" where
  "st e w = w\<lparr>shown := shown w @ [e]\<rparr>"

definition called :: "call \<Rightarrow> world \<Rightarrow> world" where
  "called c w = w\<lparr>calls := calls w @ [c]\<rparr>"

section \<open>The script\<close>

subsection \<open>\<^verbatim>\<open>get_driver\<close> (lines 13-32)\<close>

text \<open>
  The body of the function: an \<^verbatim>\<open>Exception\<close> of the start is shown and turned into
  \<^verbatim>\<open>None\<close>; any other exception leaves the function.
\<close>

definition get_driver_body :: "env \<Rightarrow> world \<Rightarrow> (pyexn + handle option) \<times> world" where
  "get_driver_body env w =
     (let options = [lit ''--disable-gpu'', lit ''--headless'', lit ''--no-sandbox'',
                     lit ''--disable-dev-shm-usage'', lit ''--disable-extensions'',
                     lit ''--disable-web-security''];
          w1 = called (Chrome options) w
      in case chrome env (calls w) options of
           Inr driver \<Rightarrow> (Inr (Some driver), w1)
         | Inl (Exception e) \<Rightarrow>
             (Inr None, st (St_error (lit ''Failed to initialize Chrome driver: '' @ e)) w1)
         | Inl (BaseException e) \<Rightarrow> (Inl (BaseException e), w1))"

text \<open>
  The function under \<^verbatim>\<open>@st.cache_resource\<close>: with an entry in the cache the body does
  not run, the stored value is returned and the stored elements are shown again;
  without one the body runs and what it returns is stored. A call that raises
  stores nothing.
\<close>

definition get_driver :: "env \<Rightarrow> world \<Rightarrow> (pyexn + handle option) \<times> world" where
  "get_driver env w =
     (case cache w of
        Some (value, elements) \<Rightarrow> (Inr value, w\<lparr>shown := shown w @ elements\<rparr>)
      | None \<Rightarrow>
          (case get_driver_body env w of
             (Inr value, w1) \<Rightarrow>
               (Inr value, w1\<lparr>cache := Some (value, drop (length (shown w)) (shown w1))\<rparr>)
           | (Inl e, w1) \<Rightarrow> (Inl e, w1)))"

subsection \<open>\<^verbatim>\<open>scrape_website\<close> (lines 34-76)\<close>

record scrape_result =
  title :: pystr
  raw_html :: pystr
  clean_text :: pystr
  status :: pystr

text \<open>Lines 37-68, the block under \<^verbatim>\<open>try\<close>: \<open>Inl\<close> is the exception it raises.\<close>

definition scrape_try :: "env \<Rightarrow> pystr \<Rightarrow> handle \<Rightarrow> world \<Rightarrow> (pyexn + scrape_result) \<times> world" where
  "scrape_try env url driver w =
     (let w1 = st (St_info (lit ''Loading '' @ url @ lit ''...'')) w;
          w2 = called (Driver_get driver url) w1
      in case driver_get env (calls w1) driver url of
           Some e \<Rightarrow> (Inl e, w2)
         | None \<Rightarrow>
             (let w3 = called (Sleep 2) w2;
                  w4 = called (Page_source driver) w3
              in case driver_page_source env (calls w3) driver of
                   Inl e \<Rightarrow> (Inl e, w4)
                 | Inr page_source \<Rightarrow>
                     (case html_parser env page_source of
                        Inl e \<Rightarrow> (Inl e, w4)
                      | Inr soup \<Rightarrow>
                          (let title_tag = find_tag (lit ''title'') soup;
                               title_text = (case title_tag of
                                               Some t \<Rightarrow> str_strip (get_text t)
                                             | None \<Rightarrow> lit ''No title found'');
                               soup1 = fold (\<lambda>(r, script). decompose r)
                                         (find_all [lit ''script'', lit ''style''] soup) soup;
                               text_content = get_text soup1;
                               lines = map str_strip (str_splitlines text_content);
                               chunks = concat (map (\<lambda>line. map str_strip (str_split_sp2 line)) lines);
                               cleaned = str_join [10] (filter (\<lambda>chunk. chunk \<noteq> []) chunks)
                           in (Inr \<lparr>title = title_text, raw_html = page_source,
                                    clean_text = cleaned, status = lit ''success''\<rparr>, w4)))))"

text \<open>
  The function with its handler (lines 70-76): \<^verbatim>\<open>except Exception as e\<close> turns an
  \<^verbatim>\<open>Exception\<close> into the result of an error; any other exception leaves the
  function.
\<close>

definition scrape_website :: "env \<Rightarrow> pystr \<Rightarrow> handle \<Rightarrow> world \<Rightarrow> (pyexn + scrape_result) \<times> world" where
  "scrape_website env url driver w =
     (case scrape_try env url driver w of
        (Inr result, w1) \<Rightarrow> (Inr result, w1)
      | (Inl (Exception e), w1) \<Rightarrow>
          (Inr \<lparr>title = [], raw_html = [], clean_text = [], status = lit ''error: '' @ e\<rparr>, w1)
      | (Inl (BaseException e), w1) \<Rightarrow> (Inl (BaseException e), w1))"

subsection \<open>The handler of the button (lines 85-139)\<close>

text \<open>Lines 96-122: the three tabs of a successful scrape.\<close>

definition show_result :: "pystr \<Rightarrow> scrape_result \<Rightarrow> world \<Rightarrow> world" where
  "show_result url_input result w =
     (let tab1 = lit ''Page Content''; tab2 = lit ''Raw HTML''; tab3 = lit ''Page Title''
      in w\<lparr>shown := shown w @
           [St_success (lit ''Scraping completed successfully!''),
            St_tabs [tab1, tab2, tab3],
            St_in_tab tab1 (St_subheader (lit ''Extracted Text Content'')),
            St_in_tab tab1
              (if clean_text result \<noteq> [] then
                 St_text_area (lit ''Clean Text Content:'')
                   (take 5000 (clean_text result)
                    @ (if length (clean_text result) > 5000 then lit ''...'' else []))
               else St_warning (lit ''No text content found on the page.'')),
            St_in_tab tab2 (St_subheader (lit ''Raw HTML Source'')),
            St_in_tab tab2
              (St_code (take 3000 (raw_html result)
                        @ (if length (raw_html result) > 3000 then lit ''...'' else []))),
            St_in_tab tab3 (St_subheader (lit ''Page Information'')),
            St_in_tab tab3 (St_write (lit ''**Title:** '' @ title result)),
            St_in_tab tab3 (St_write (lit ''**URL:** '' @ url_input)),
            St_in_tab tab3 (St_write (lit ''**Content Length:** ''
              @ str_of_nat (length (clean_text result)) @ lit '' characters'')),
            St_in_tab tab3 (St_write (lit ''**HTML Length:** ''
              @ str_of_nat (length (raw_html result)) @ lit '' characters''))]\<rparr>)"

text \<open>
  Lines 91-128, the inner \<^verbatim>\<open>try\<close> with its \<^verbatim>\<open>except Exception\<close>: \<open>Some\<close> is the
  exception that leaves it.
\<close>

definition scrape_and_show :: "env \<Rightarrow> pystr \<Rightarrow> handle \<Rightarrow> world \<Rightarrow> pyexn option \<times> world" where
  "scrape_and_show env url_input driver w =
     (case scrape_website env url_input driver w of
        (Inr result, w1) \<Rightarrow>
          (None,
           if status result = lit ''success'' then show_result url_input result w1
           else st (St_error (lit ''Scraping failed: '' @ status result)) w1)
      | (Inl (Exception e), w1) \<Rightarrow> (None, st (St_error (lit ''An error occurred: '' @ e)) w1)
      | (Inl (BaseException e), w1) \<Rightarrow> (Some (BaseException e), w1))"

text \<open>
  The handler: \<open>Some\<close> is the exception that ends the run of the script. The
  \<^verbatim>\<open>finally\<close> block calls \<^verbatim>\<open>driver.quit()\<close> under a bare \<^verbatim>\<open>except\<close>, so whatever the call
  raises is dropped.
\<close>

definition button_handler :: "env \<Rightarrow> pystr \<Rightarrow> world \<Rightarrow> pyexn option \<times> world" where
  "button_handler env url_input w =
     (if url_input \<noteq> [] then
        (case get_driver env w of
           (Inl e, w1) \<Rightarrow> (Some e, w1)
         | (Inr (Some driver), w1) \<Rightarrow>
             (case scrape_and_show env url_input driver w1 of
                (raised, w2) \<Rightarrow> (raised, called (Driver_quit driver) w2))
         | (Inr None, w1) \<Rightarrow>
             (None, st (St_error (lit ''Failed to initialize web driver. Please try again.'')) w1))
      else (None, st (St_warning (lit ''Please enter a valid URL.'')) w))"

text \<open>The button pressed once for each of the inputs, in order, in one process.\<close>

definition presses :: "env \<Rightarrow> pystr list \<Rightarrow> world \<Rightarrow> world" where
  "presses env urls w = fold (\<lambda>url_input w1. snd (button_handler env url_input w1)) urls w"

section \<open>Notions the properties are stated with\<close>

text \<open>
  The browser loads \<open>url\<close> and hands back \<open>markup\<close>, which the parser turns into
  \<open>soup\<close>: no call of lines 38-45 raises.
\<close>

definition page_loaded :: "env \<Rightarrow> pystr \<Rightarrow> handle \<Rightarrow> world \<Rightarrow> pystr \<Rightarrow> node \<Rightarrow> bool" where
  "page_loaded env url driver w markup soup \<longleftrightarrow>
     driver_get env (calls w) driver url = None \<and>
     driver_page_source env (calls w @ [Driver_get driver url, Sleep 2]) driver = Inr markup \<and>
     html_parser env markup = Inr soup"

text \<open>The exception that navigation or parsing raises, if one of them raises.\<close>

definition raised_by :: "env \<Rightarrow> pystr \<Rightarrow> handle \<Rightarrow> world \<Rightarrow> pyexn option" where
  "raised_by env url driver w =
     (case driver_get env (calls w) driver url of
        Some e \<Rightarrow> Some e
      | None \<Rightarrow>
          (case driver_page_source env (calls w @ [Driver_get driver url, Sleep 2]) driver of
             Inl e \<Rightarrow> Some e
           | Inr markup \<Rightarrow>
               (case html_parser env markup of Inl e \<Rightarrow> Some e | Inr soup \<Rightarrow> None)))"

text \<open>
  The text strings of a tree that lie in no tag of the given names, in document
  order: what such a tag holds is passed over, whatever it is.
\<close>

fun text_outside :: "pystr list \<Rightarrow> node \<Rightarrow> pystr list" where
  "text_outside names (NavigableString s) = [s]"
| "text_outside names (Comment s) = []"
| "text_outside names (Tag name cs) =
     concat (map (\<lambda>c. if is_tag_named names c then [] else text_outside names c) cs)"
| "text_outside names Decomposed = []"

text \<open>What the loop of lines 52-53 leaves of one child of a tag.\<close>

definition stripped :: "pystr list \<Rightarrow> node \<Rightarrow> node" where
  "stripped names c =
     (if is_tag_named names c then Decomposed
      else fold (\<lambda>(r, e). decompose r) (find_all names c) c)"

text \<open>
  The chunks lines 59-61 keep: of one line, and of a text (each line stripped
  first, as line 59 does).
\<close>

definition fragments :: "pystr \<Rightarrow> pystr list" where
  "fragments line = filter (\<lambda>chunk. chunk \<noteq> []) (map str_strip (str_split_sp2 line))"

definition chunks_of :: "pystr \<Rightarrow> pystr list" where
  "chunks_of text_content = concat (map fragments (map str_strip (str_splitlines text_content)))"


text \<open>
  The number of starts of a browser so far: the calls of \<^verbatim>\<open>webdriver.Chrome(...)\<close>,
  whether they returned a handle or raised.
\<close>

fun is_start :: "call \<Rightarrow> bool" where
  "is_start (Chrome options) = True"
| "is_start (Driver_get driver url) = False"
| "is_start (Sleep n) = False"
| "is_start (Page_source driver) = False"
| "is_start (Driver_quit driver) = False"

definition starts :: "world \<Rightarrow> nat" where
  "starts w = length (filter is_start (calls w))"

section \<open>Example runs\<close>

text \<open>A process that has just started: nothing cached, nothing shown, nothing called.\<close>

definition fresh :: world where
  "fresh = \<lparr>cache = None, shown = [], calls = []\<rparr>"

text \<open>
  The page of the specification's example, and the tree \<^verbatim>\<open>html.parser\<close> builds from it;
  \<open>demo_env\<close> is a browser that starts and serves this page for every address.
\<close>

definition demo_markup :: pystr where
  "demo_markup = lit ''<html><head><title> Demo </title></head><body><script>x=1</script><p>Hello  World</p></body></html>''"

definition demo_soup :: node where
  "demo_soup =
     Tag (lit ''[document]'')
       [Tag (lit ''html'')
          [Tag (lit ''head'') [Tag (lit ''title'') [NavigableString (lit '' Demo '')]],
           Tag (lit ''body'')
             [Tag (lit ''script'') [NavigableString (lit ''x=1'')],
              Tag (lit ''p'') [NavigableString (lit ''Hello  World'')]]]]"

definition demo_env :: env where
  "demo_env = \<lparr>chrome = (\<lambda>history options. Inr (WebDriver 0)),
               driver_get = (\<lambda>history driver url. None),
               driver_page_source = (\<lambda>history driver. Inr demo_markup),
               html_parser = (\<lambda>markup. Inr demo_soup)\<rparr>"

definition demo_result :: scrape_result where
  "demo_result = \<lparr>title = lit ''Demo'', raw_html = demo_markup,
                   clean_text = lit ''Demo Hello'' @ [10] @ lit ''World'',
                   status = lit ''success''\<rparr>"




text \<open>A browser that serves the empty page.\<close>

definition empty_env :: env where
  "empty_env = \<lparr>chrome = (\<lambda>history options. Inr (WebDriver 0)),
                driver_get = (\<lambda>history driver url. None),
                driver_page_source = (\<lambda>history driver. Inr []),
                html_parser = (\<lambda>markup. Inr (Tag (lit ''[document]'') []))\<rparr>"

text \<open>
  A browser whose navigation fails with a \<^verbatim>\<open>WebDriverException\<close>, which derives from
  \<^verbatim>\<open>Exception\<close>, and one whose navigation is interrupted by a \<^verbatim>\<open>KeyboardInterrupt\<close>, which
  does not.
\<close>

definition offline_env :: env where
  "offline_env = \<lparr>chrome = (\<lambda>history options. Inr (WebDriver 0)),
                  driver_get = (\<lambda>history driver url.
                    Some (Exception (lit ''net::ERR_NAME_NOT_RESOLVED''))),
                  driver_page_source = (\<lambda>history driver. Inr []),
                  html_parser = (\<lambda>markup. Inr (Tag (lit ''[document]'') []))\<rparr>"

definition interrupted_env :: env where
  "interrupted_env = \<lparr>chrome = (\<lambda>history options. Inr (WebDriver 0)),
                      driver_get = (\<lambda>history driver url.
                        Some (BaseException (lit ''KeyboardInterrupt''))),
                      driver_page_source = (\<lambda>history driver. Inr []),
                      html_parser = (\<lambda>markup. Inr (Tag (lit ''[document]'') []))\<rparr>"

text \<open>
  A machine on which the first start of the browser fails with an \<^verbatim>\<open>Exception\<close> and
  every later start would succeed.
\<close>

definition flaky_env :: env where
  "flaky_env = \<lparr>chrome = (\<lambda>history options.
                  if filter is_start history = []
                  then Inl (Exception (lit ''chromedriver: not found''))
                  else Inr (WebDriver 0)),
                driver_get = (\<lambda>history driver url. None),
                driver_page_source = (\<lambda>history driver. Inr demo_markup),
                html_parser = (\<lambda>markup. Inr demo_soup)\<rparr>"

section \<open>Properties of the string functions\<close>




lemma set_str_strip: "set (str_strip s) \<subseteq> set s"
proof -
  have "set (str_strip s) \<subseteq> set (dropWhile isspace s)"
    unfolding str_strip_def using set_dropWhileD [of _ isspace "rev (dropWhile isspace s)"] by auto
  also have "\<dots> \<subseteq> set s" using set_dropWhileD [of _ isspace s] by auto
  finally show ?thesis .
qed

text \<open>A stripped string that is not empty ends with a character that is no whitespace.\<close>

lemma str_strip_visible:
  assumes "str_strip s \<noteq> []"
  shows "\<exists>c\<in>set (str_strip s). \<not> isspace c"
proof -
  let ?d = "dropWhile isspace (rev (dropWhile isspace s))"
  from assms have ne: "?d \<noteq> []" by (simp add: str_strip_def)
  then have "\<not> isspace (hd ?d)" by (rule hd_dropWhile)
  moreover from ne have "hd ?d \<in> set (str_strip s)" by (simp add: str_strip_def)
  ultimately show ?thesis by blast
qed



lemma set_push_front: "\<Union> (set ` set (push_front c xs)) = insert c (\<Union> (set ` set xs))"
  by (cases xs) auto


lemma set_split_sp2: "\<Union> (set ` set (str_split_sp2 s)) \<subseteq> set s"
  by (induction s rule: str_split_sp2.induct) (auto simp: set_push_front)








lemma linebreak_CR: "is_linebreak 13"
  by (simp add: is_linebreak_def)

lemma linebreak_LF: "is_linebreak 10"
  by (simp add: is_linebreak_def)

lemma splitlines_no_linebreak: "\<Union> (set ` set (str_splitlines s)) \<subseteq> {c. \<not> is_linebreak c}"
proof (induction s rule: str_splitlines.induct)
  case (3 c d s)
  then show ?case by (auto simp: set_push_front)
qed simp_all

lemma splitlines_single:
  "x \<noteq> [] \<Longrightarrow> \<forall>c\<in>set x. \<not> is_linebreak c \<Longrightarrow> str_splitlines x = [x]"
proof (induction x)
  case Nil
  then show ?case by simp
next
  case (Cons a x)
  note prems = Cons.prems and IH = Cons.IH
  from prems have a: "\<not> is_linebreak a" by simp
  then have "a \<noteq> 13" using linebreak_CR by blast
  show ?case
  proof (cases x)
    case Nil
    with a show ?thesis by simp
  next
    case (Cons d s)
    have "str_splitlines (a # d # s) = push_front a (str_splitlines (d # s))"
      using a \<open>a \<noteq> 13\<close> by simp
    moreover have "str_splitlines (d # s) = [d # s]"
      using IH prems Cons by simp
    ultimately show ?thesis using Cons by simp
  qed
qed

lemma splitlines_line_LF:
  "\<forall>c\<in>set x. \<not> is_linebreak c \<Longrightarrow> str_splitlines (x @ 10 # r) = x # str_splitlines r"
proof (induction x)
  case Nil
  show ?case by (cases r) (simp_all add: linebreak_LF)
next
  case (Cons a x)
  then have a: "\<not> is_linebreak a" by simp
  then have "a \<noteq> 13" using linebreak_CR by blast
  obtain d s where ds: "x @ 10 # r = d # s" by (cases "x @ 10 # r") auto
  have "str_splitlines (a # d # s) = push_front a (str_splitlines (d # s))"
    using a \<open>a \<noteq> 13\<close> by simp
  with Cons ds show ?case by simp
qed

text \<open>Chunks without line end, joined by newlines, are the lines of the joined text.\<close>

lemma splitlines_join:
  "\<forall>ch\<in>set chunks. ch \<noteq> [] \<and> (\<forall>c\<in>set ch. \<not> is_linebreak c) \<Longrightarrow>
   str_splitlines (str_join [10] chunks) = chunks"
proof (induction chunks)
  case Nil
  show ?case by simp
next
  case (Cons x chunks)
  note prems = Cons.prems and IH = Cons.IH
  show ?case
  proof (cases chunks)
    case Nil
    with prems show ?thesis by (simp add: splitlines_single)
  next
    case (Cons y ys)
    have "str_splitlines (x @ 10 # str_join [10] (y # ys))
        = x # str_splitlines (str_join [10] (y # ys))"
      using prems by (intro splitlines_line_LF) simp
    also have "str_splitlines (str_join [10] (y # ys)) = y # ys"
      using IH prems Cons by simp
    finally show ?thesis using Cons by simp
  qed
qed

lemma chunk_props:
  assumes "ch \<in> set (chunks_of t)"
  shows "ch \<noteq> []" and "\<forall>c\<in>set ch. \<not> is_linebreak c" and "\<exists>c\<in>set ch. \<not> isspace c"
proof -
  from assms obtain line where line: "line \<in> set (str_splitlines t)"
    and ch: "ch \<in> set (fragments (str_strip line))"
    by (auto simp: chunks_of_def)
  from ch obtain f where f: "f \<in> set (str_split_sp2 (str_strip line))"
    and chf: "ch = str_strip f" and ne: "ch \<noteq> []"
    by (auto simp: fragments_def)
  show "ch \<noteq> []" by (rule ne)
  show "\<exists>c\<in>set ch. \<not> isspace c" using ne str_strip_visible [of f] chf by simp
  have "set ch \<subseteq> set f" using set_str_strip chf by simp
  also have "\<dots> \<subseteq> set (str_strip line)" using f set_split_sp2 [of "str_strip line"] by auto
  also have "\<dots> \<subseteq> set line" by (rule set_str_strip)
  also have "\<dots> \<subseteq> {c. \<not> is_linebreak c}" using line splitlines_no_linebreak [of t] by auto
  finally show "\<forall>c\<in>set ch. \<not> is_linebreak c" by auto
qed

lemma set_splitlines: "\<Union> (set ` set (str_splitlines s)) \<subseteq> set s"
proof (induction s rule: str_splitlines.induct)
  case (3 c d s)
  show ?case
  proof (cases "c = 13 \<and> d = 10")
    case True
    with 3 have "\<Union> (set ` set (str_splitlines s)) \<subseteq> set s" by simp
    with True show ?thesis by auto
  next
    case False
    with 3 have "\<Union> (set ` set (str_splitlines (d # s))) \<subseteq> set (d # s)" by auto
    with False show ?thesis by (auto simp: set_push_front)
  qed
qed simp_all

text \<open>The chunks of a text are made of its characters, and so is their join, newlines apart.\<close>

lemma set_chunks_of: "\<Union> (set ` set (chunks_of t)) \<subseteq> set t"
proof
  fix c assume "c \<in> \<Union> (set ` set (chunks_of t))"
  then obtain line f where line: "line \<in> set (str_splitlines t)"
    and f: "f \<in> set (str_split_sp2 (str_strip line))" and c: "c \<in> set (str_strip f)"
    by (auto simp: chunks_of_def fragments_def)
  from c have "c \<in> set f" using set_str_strip by blast
  with f have "c \<in> set (str_strip line)" using set_split_sp2 [of "str_strip line"] by blast
  then have "c \<in> set line" using set_str_strip by blast
  with line show "c \<in> set t" using set_splitlines [of t] by blast
qed

lemma set_str_join: "set (str_join sep xs) \<subseteq> set sep \<union> \<Union> (set ` set xs)"
  by (induction sep xs rule: str_join.induct) auto

lemma set_joined_chunks: "set (str_join [10] (chunks_of t)) \<subseteq> insert 10 (set t)"
  using set_str_join [of "[10]" "chunks_of t"] set_chunks_of [of t] by auto

lemma splitlines_chunks: "str_splitlines (str_join [10] (chunks_of t)) = chunks_of t"
proof (rule splitlines_join, rule ballI)
  fix ch assume "ch \<in> set (chunks_of t)"
  then show "ch \<noteq> [] \<and> (\<forall>c\<in>set ch. \<not> is_linebreak c)"
    using chunk_props(1,2) by blast
qed


section \<open>Properties of the tree functions\<close>

lemma find_all_from_elements:
  assumes "\<And>c. c \<in> set cs \<Longrightarrow>
    map snd (find_all names c) = filter (is_tag_named names) (descendants c)"
  shows "map snd (find_all_from names i cs)
       = filter (is_tag_named names) (concat (map (\<lambda>c. c # descendants c) cs))"
  using assms by (induction cs arbitrary: i) (simp_all add: comp_def case_prod_unfold)

text \<open>\<^verbatim>\<open>find_all\<close> returns the matching descendants, in document order.\<close>

lemma find_all_elements:
  "map snd (find_all names t) = filter (is_tag_named names) (descendants t)"
proof (induction t)
  case (Tag name cs)
  then show ?case by (simp add: find_all_from_elements)
qed simp_all

lemma find_all_refs_nonempty:
  "(r, e) \<in> set (find_all names t) \<Longrightarrow> r \<noteq> []"
  "(r, e) \<in> set (find_all_from names i cs) \<Longrightarrow> r \<noteq> []"
  by (induction names t and names i cs rule: find_all_find_all_from.induct)
    (auto split: if_splits)

lemma decompose_child_update:
  "decompose_child i r cs = (if i < length cs then cs[i := decompose r (cs ! i)] else cs)"
proof (induction cs arbitrary: i)
  case Nil
  show ?case by simp
next
  case (Cons c cs)
  show ?case by (cases i) (simp_all add: Cons.IH)
qed

lemma fold_decompose_Decomposed:
  "\<forall>(r, e)\<in>set rs. r \<noteq> [] \<Longrightarrow> fold (\<lambda>(r, e). decompose r) rs Decomposed = Decomposed"
proof (induction rs)
  case Nil
  show ?case by simp
next
  case (Cons a rs)
  obtain r e where a: "a = (r, e)" by (cases a)
  with Cons.prems obtain i r' where "r = i # r'" by (cases r) auto
  with Cons a show ?case by simp
qed

lemma fold_decompose_below:
  "i < length cs \<Longrightarrow>
   fold (\<lambda>(r, e). decompose r) (map (\<lambda>(r, e). (i # r, e)) rs) (Tag name cs)
     = Tag name (cs[i := fold (\<lambda>(r, e). decompose r) rs (cs ! i)])"
proof (induction rs arbitrary: cs)
  case Nil
  show ?case by simp
next
  case (Cons a rs)
  obtain r e where a: "a = (r, e)" by (cases a)
  show ?case using Cons.prems Cons.IH [of "cs[i := decompose r (cs ! i)]"]
    by (simp add: a decompose_child_update)
qed

lemma fold_decompose_children:
  "fold (\<lambda>(r, e). decompose r) (find_all_from names (length pre) cs) (Tag name (pre @ cs))
     = Tag name (pre @ map (stripped names) cs)"
proof (induction cs arbitrary: pre)
  case Nil
  show ?case by simp
next
  case (Cons c cs)
  let ?f = "\<lambda>(r, e). decompose r"
  let ?below = "map (\<lambda>(r, e). (length pre # r, e)) (find_all names c)"
  have below: "fold ?f ?below (Tag name (pre @ x # cs))
      = Tag name (pre @ fold ?f (find_all names c) x # cs)" for x
    using fold_decompose_below [of "length pre" "pre @ x # cs" "find_all names c" name]
    by simp
  have "fold ?f ((if is_tag_named names c then [([length pre], c)] else []) @ ?below)
          (Tag name (pre @ c # cs))
      = Tag name (pre @ stripped names c # cs)"
  proof (cases "is_tag_named names c")
    case True
    have "fold ?f (find_all names c) Decomposed = Decomposed"
      by (rule fold_decompose_Decomposed) (use find_all_refs_nonempty(1) in fast)
    with True show ?thesis
      using below [of Decomposed] by (simp add: stripped_def decompose_child_update)
  next
    case False
    then show ?thesis using below [of c] by (simp add: stripped_def)
  qed
  moreover have "fold ?f (find_all_from names (Suc (length pre)) cs)
          (Tag name (pre @ stripped names c # cs))
      = Tag name (pre @ stripped names c # map (stripped names) cs)"
    using Cons.IH [of "pre @ [stripped names c]"] by simp
  ultimately show ?case by simp
qed

lemma fold_decompose_Tag:
  "fold (\<lambda>(r, e). decompose r) (find_all_from names 0 cs) (Tag name cs)
     = Tag name (map (stripped names) cs)"
  using fold_decompose_children [of names "[]" cs name] by simp

text \<open>
  After the loop of lines 52-53 the text strings of the tree are those that lay in
  no tag of the names.
\<close>

lemma all_strings_decomposed:
  "all_strings (fold (\<lambda>(r, e). decompose r) (find_all names t) t) = text_outside names t"
proof (induction t)
  case (Tag name cs)
  have "all_strings (stripped names c) = (if is_tag_named names c then [] else text_outside names c)"
    if "c \<in> set cs" for c
    using Tag [OF that] by (simp add: stripped_def)
  then have eq: "map (all_strings \<circ> stripped names) cs
      = map (\<lambda>c. if is_tag_named names c then [] else text_outside names c) cs"
    by simp
  show ?case
    by (simp only: find_all.simps fold_decompose_Tag all_strings.simps text_outside.simps
        map_map eq)
qed simp_all

section \<open>Properties of \<^verbatim>\<open>scrape_website\<close>\<close>

lemma st_simps [simp]:
  "calls (st e w) = calls w" "shown (st e w) = shown w @ [e]" "cache (st e w) = cache w"
  by (simp_all add: st_def)

lemma called_simps [simp]:
  "calls (called c w) = calls w @ [c]" "shown (called c w) = shown w"
  "cache (called c w) = cache w"
  by (simp_all add: called_def)

text \<open>The result for a page that loads and parses.\<close>

lemma scrape_try_loaded:
  assumes "page_loaded env url driver w markup soup"
  shows "fst (scrape_try env url driver w) =
     Inr \<lparr>title = (case find_tag (lit ''title'') soup of
                     Some t \<Rightarrow> str_strip (get_text t) | None \<Rightarrow> lit ''No title found''),
          raw_html = markup,
          clean_text = str_join [10] (chunks_of (get_text
            (fold (\<lambda>(r, script). decompose r)
               (find_all [lit ''script'', lit ''style''] soup) soup))),
          status = lit ''success''\<rparr>"
  using assms
  by (simp add: page_loaded_def scrape_try_def Let_def chunks_of_def fragments_def
      filter_concat comp_def)

lemma scrape_website_loaded:
  assumes "page_loaded env url driver w markup soup"
  shows "fst (scrape_website env url driver w) =
     Inr \<lparr>title = (case find_tag (lit ''title'') soup of
                     Some t \<Rightarrow> str_strip (get_text t) | None \<Rightarrow> lit ''No title found''),
          raw_html = markup,
          clean_text = str_join [10] (chunks_of (get_text
            (fold (\<lambda>(r, script). decompose r)
               (find_all [lit ''script'', lit ''style''] soup) soup))),
          status = lit ''success''\<rparr>"
  using scrape_try_loaded [OF assms]
  by (cases "scrape_try env url driver w") (simp add: scrape_website_def)

text \<open>The result when navigation or parsing raises.\<close>

lemma scrape_try_raised:
  "raised_by env url driver w = Some e \<Longrightarrow> fst (scrape_try env url driver w) = Inl e"
  by (auto simp: raised_by_def scrape_try_def Let_def split: option.splits sum.splits)

lemma scrape_website_raised:
  "raised_by env url driver w = Some (Exception e) \<Longrightarrow>
     fst (scrape_website env url driver w)
       = Inr \<lparr>title = [], raw_html = [], clean_text = [], status = lit ''error: '' @ e\<rparr>"
  "raised_by env url driver w = Some (BaseException e) \<Longrightarrow>
     fst (scrape_website env url driver w) = Inl (BaseException e)"
  using scrape_try_raised [of env url driver w]
  by (cases "scrape_try env url driver w"; simp add: scrape_website_def)+

lemma raised_or_loaded:
  "(\<exists>e. raised_by env url driver w = Some e) \<or>
   (\<exists>markup soup. page_loaded env url driver w markup soup)"
  by (auto simp: raised_by_def page_loaded_def split: option.splits sum.splits)

lemma error_is_no_success: "lit ''error: '' @ e \<noteq> lit ''success''"
  by (simp add: lit_def)

text \<open>\<^verbatim>\<open>find\<close> returns the first matching descendant in document order.\<close>

lemma find_tag_first:
  "find_tag name soup = (case filter (is_tag_named [name]) (descendants soup) of
                           [] \<Rightarrow> None | t # _ \<Rightarrow> Some t)"
  using find_all_elements [of "[name]" soup, symmetric]
  by (cases "find_all [name] soup") (auto simp: find_tag_def)

text \<open>Whatever result the function returns, its clean text is chunks joined by newlines.\<close>

lemma scrape_website_clean_text:
  assumes "fst (scrape_website env url driver w) = Inr r"
  shows "\<exists>t. clean_text r = str_join [10] (chunks_of t)"
proof -
  from raised_or_loaded [of env url driver w] show ?thesis
  proof (elim disjE exE)
    fix x assume x: "raised_by env url driver w = Some x"
    show ?thesis
    proof (cases x)
      case (Exception e)
      with x assms scrape_website_raised(1) [of env url driver w e]
      have "clean_text r = str_join [10] (chunks_of [])" by (auto simp: chunks_of_def)
      then show ?thesis ..
    next
      case (BaseException e)
      with x assms scrape_website_raised(2) [of env url driver w e] show ?thesis by simp
    qed
  next
    fix markup soup assume "page_loaded env url driver w markup soup"
    from scrape_website_loaded [OF this] assms show ?thesis by auto
  qed
qed

text \<open>The example pages.\<close>

lemma demo_loaded: "page_loaded demo_env url driver w demo_markup demo_soup"
  by (simp add: page_loaded_def demo_env_def)

lemma demo_text_outside:
  "text_outside [lit ''script'', lit ''style''] demo_soup = [lit '' Demo '', lit ''Hello  World'']"
  by (simp add: demo_soup_def lit_def)

lemma demo_chunks:
  "chunks_of (lit '' Demo '' @ lit ''Hello  World'') = [lit ''Demo Hello'', lit ''World'']"
  by (simp add: chunks_of_def fragments_def str_strip_def lit_def isspace_def is_linebreak_def)

lemma demo_scrape: "fst (scrape_website demo_env url driver w) = Inr demo_result"
proof -
  have "find_tag (lit ''title'') demo_soup
      = Some (Tag (lit ''title'') [NavigableString (lit '' Demo '')])"
    by (simp add: find_tag_def demo_soup_def lit_def)
  moreover have "str_strip (get_text (Tag (lit ''title'') [NavigableString (lit '' Demo '')]))
      = lit ''Demo''"
    by (simp add: get_text_def str_strip_def lit_def isspace_def)
  moreover have "get_text (fold (\<lambda>(r, script). decompose r)
      (find_all [lit ''script'', lit ''style''] demo_soup) demo_soup)
      = lit '' Demo '' @ lit ''Hello  World''"
    by (simp add: get_text_def all_strings_decomposed demo_text_outside)
  ultimately show ?thesis
    by (simp add: scrape_website_loaded [OF demo_loaded] demo_chunks demo_result_def)
qed


section \<open>Properties of the handler and of \<^verbatim>\<open>get_driver\<close>\<close>

lemma starts_simps [simp]:
  "starts (st e w) = starts w"
  "starts (called c w) = (if is_start c then Suc (starts w) else starts w)"
  "starts (w\<lparr>shown := x\<rparr>) = starts w"
  "starts (w\<lparr>cache := y\<rparr>) = starts w"
  by (simp_all add: starts_def)

text \<open>Scraping and showing start no browser and leave the cache as it is.\<close>

lemma scrape_try_frame:
  "cache (snd (scrape_try env url driver w)) = cache w"
  "starts (snd (scrape_try env url driver w)) = starts w"
  by (simp_all add: scrape_try_def Let_def split: option.split sum.split)

lemma scrape_website_frame:
  "cache (snd (scrape_website env url driver w)) = cache w"
  "starts (snd (scrape_website env url driver w)) = starts w"
  using scrape_try_frame [of env url driver w]
  by (cases "scrape_try env url driver w";
      simp add: scrape_website_def split: sum.split pyexn.split)+

lemma show_result_frame [simp]:
  "cache (show_result url r w) = cache w"
  "starts (show_result url r w) = starts w"
  "calls (show_result url r w) = calls w"
  by (simp_all add: show_result_def Let_def starts_def)

lemma scrape_and_show_frame:
  "cache (snd (scrape_and_show env url driver w)) = cache w"
  "starts (snd (scrape_and_show env url driver w)) = starts w"
  using scrape_website_frame [of env url driver w]
  by (cases "scrape_website env url driver w";
      simp add: scrape_and_show_def split: sum.split pyexn.split)+

text \<open>With an entry in the cache the body of \<^verbatim>\<open>get_driver\<close> does not run.\<close>

lemma get_driver_hit:
  "cache w = Some (v, els) \<Longrightarrow> get_driver env w = (Inr v, w\<lparr>shown := shown w @ els\<rparr>)"
  by (simp add: get_driver_def)

text \<open>
  Without one the body runs: it starts a browser, and what it returns is stored. A
  handle is stored with no element, since the body shows none when the start succeeds.
\<close>

lemma get_driver_miss:
  assumes "cache w = None" and "fst (get_driver env w) = Inr v"
  shows "\<exists>els. cache (snd (get_driver env w)) = Some (v, els) \<and> (v \<noteq> None \<longrightarrow> els = [])"
    and "starts (snd (get_driver env w)) = Suc (starts w)"
  using assms
  by (auto simp: get_driver_def get_driver_body_def Let_def split: sum.splits pyexn.splits)

text \<open>An entry, once in the cache, stays, and no press of the button starts a browser.\<close>

lemma button_handler_frame:
  assumes "cache w = Some c"
  shows "cache (snd (button_handler env url w)) = Some c"
    and "starts (snd (button_handler env url w)) = starts w"
proof -
  obtain v els where c: "c = (v, els)" by (cases c)
  note hit = get_driver_hit [OF assms [unfolded c], of env]
  show "cache (snd (button_handler env url w)) = Some c"
    using assms scrape_and_show_frame(1) [of env url _ "w\<lparr>shown := shown w @ els\<rparr>"]
    by (simp add: button_handler_def hit case_prod_unfold split: option.split)
  show "starts (snd (button_handler env url w)) = starts w"
    using scrape_and_show_frame(2) [of env url _ "w\<lparr>shown := shown w @ els\<rparr>"]
    by (simp add: button_handler_def hit case_prod_unfold split: option.split)
qed

lemma presses_frame:
  "cache w = Some c \<Longrightarrow>
   cache (presses env urls w) = Some c \<and> starts (presses env urls w) = starts w"
proof (induction urls arbitrary: w)
  case Nil
  then show ?case by (simp add: presses_def)
next
  case (Cons url urls)
  from button_handler_frame [OF Cons.prems, of env url]
  have "cache (snd (button_handler env url w)) = Some c"
    and "starts (snd (button_handler env url w)) = starts w" by auto
  with Cons.IH [of "snd (button_handler env url w)"] show ?case
    by (simp add: presses_def)
qed

text \<open>A press with an address leaves the cache and the browsers as \<^verbatim>\<open>get_driver\<close> left them.\<close>

lemma button_handler_after_get_driver:
  assumes "url \<noteq> []"
  shows "cache (snd (button_handler env url w)) = cache (snd (get_driver env w))"
    and "starts (snd (button_handler env url w)) = starts (snd (get_driver env w))"
  using assms scrape_and_show_frame [of env url _ "snd (get_driver env w)"]
  by (cases "get_driver env w";
      simp add: button_handler_def case_prod_unfold split: sum.split option.split)+

text \<open>The run of the handler on a successful scrape.\<close>

lemma button_handler_success:
  assumes "url \<noteq> []" and "fst (get_driver env w) = Inr (Some driver)"
    and "fst (scrape_website env url driver (snd (get_driver env w))) = Inr r"
    and "status r = lit ''success''"
  shows "snd (button_handler env url w)
       = called (Driver_quit driver)
           (show_result url r (snd (scrape_website env url driver (snd (get_driver env w)))))"
  using assms
  by (cases "get_driver env w"; cases "scrape_website env url driver (snd (get_driver env w))")
     (simp add: button_handler_def scrape_and_show_def)

lemma demo_get_driver: "fst (get_driver demo_env fresh) = Inr (Some (WebDriver 0))"
  by (simp add: get_driver_def get_driver_body_def demo_env_def fresh_def Let_def)

lemma flaky_get_driver:
  "get_driver flaky_env fresh =
     (Inr None,
      \<lparr>cache = Some (None,
         [St_error (lit ''Failed to initialize Chrome driver: chromedriver: not found'')]),
       shown = [St_error (lit ''Failed to initialize Chrome driver: chromedriver: not found'')],
       calls = [Chrome [lit ''--disable-gpu'', lit ''--headless'', lit ''--no-sandbox'',
                        lit ''--disable-dev-shm-usage'', lit ''--disable-extensions'',
                        lit ''--disable-web-security'']]\<rparr>)"
  by (simp add: get_driver_def get_driver_body_def flaky_env_def fresh_def Let_def st_def
      called_def lit_def)

lemma empty_loaded: "page_loaded empty_env url driver w [] (Tag (lit ''[document]'') [])"
  by (simp add: page_loaded_def empty_env_def)

section \<open>The claims\<close>

text \<open>
  C1. When the page loads and its parse has a \<^verbatim>\<open>title\<close> element, the title of the result is
  the stripped text of the first such element in document order; when its parse has none,
  the title is \<^verbatim>\<open>No title found\<close>.
\<close>

theorem title_extracted:
  assumes "page_loaded env url driver w markup soup"
  shows "\<exists>r. fst (scrape_website env url driver w) = Inr r \<and>
           title r = (case filter (is_tag_named [lit ''title'']) (descendants soup) of
                        [] \<Rightarrow> lit ''No title found''
                      | t # _ \<Rightarrow> str_strip (get_text t))"
  by (simp add: scrape_website_loaded [OF assms] find_tag_first split: list.split)

text \<open>The example page has the title \<^verbatim>\<open>Demo\<close>, the empty page has none.\<close>

theorem title_extracted_witness:
  "page_loaded demo_env (lit ''http://example.com'') (WebDriver 0) fresh demo_markup demo_soup \<and>
   (\<exists>r. fst (scrape_website demo_env (lit ''http://example.com'') (WebDriver 0) fresh) = Inr r \<and>
        title r = lit ''Demo'') \<and>
   (\<exists>r. fst (scrape_website empty_env (lit ''http://example.com'') (WebDriver 0) fresh) = Inr r \<and>
        title r = lit ''No title found'')"
proof -
  have "filter (is_tag_named [lit ''title'']) (descendants demo_soup)
      = [Tag (lit ''title'') [NavigableString (lit '' Demo '')]]"
    by (simp add: demo_soup_def lit_def)
  moreover have "str_strip (get_text (Tag (lit ''title'') [NavigableString (lit '' Demo '')]))
      = lit ''Demo''"
    by (simp add: get_text_def str_strip_def lit_def isspace_def)
  ultimately show ?thesis
    using title_extracted [OF demo_loaded, of "lit ''http://example.com''" "WebDriver 0" fresh]
      title_extracted [OF empty_loaded, of "lit ''http://example.com''" "WebDriver 0" fresh]
      demo_loaded
    by simp
qed

text \<open>
  C2. When the page loads, no text of a \<^verbatim>\<open>script\<close> or \<^verbatim>\<open>style\<close> subtree goes into the clean
  text: the clean text is made of the text strings that lie in no \<^verbatim>\<open>script\<close> and no \<^verbatim>\<open>style\<close>
  element, and of nothing else. So every character of the clean text, the newlines that
  join its lines apart, is a character of a text string outside those elements.
\<close>

theorem script_style_text_excluded:
  assumes "page_loaded env url driver w markup soup"
  shows "\<exists>r. fst (scrape_website env url driver w) = Inr r \<and>
           clean_text r = str_join [10] (chunks_of (concat
             (text_outside [lit ''script'', lit ''style''] soup))) \<and>
           set (clean_text r)
             \<subseteq> insert 10 (\<Union> (set ` set (text_outside [lit ''script'', lit ''style''] soup)))"
  using set_joined_chunks [of "concat (text_outside [lit ''script'', lit ''style''] soup)"]
  by (simp add: scrape_website_loaded [OF assms] get_text_def all_strings_decomposed)

text \<open>
  The clean text of the example page: the script's \<^verbatim>\<open>x=1\<close> is not in it, and neither \<^verbatim>\<open>x\<close>
  (code point 120) nor \<^verbatim>\<open>=\<close> (61) nor \<^verbatim>\<open>1\<close> (49) occurs in it.
\<close>

theorem script_style_text_excluded_witness:
  "page_loaded demo_env (lit ''http://example.com'') (WebDriver 0) fresh demo_markup demo_soup \<and>
   (\<exists>r. fst (scrape_website demo_env (lit ''http://example.com'') (WebDriver 0) fresh) = Inr r \<and>
        clean_text r = lit ''Demo Hello'' @ [10] @ lit ''World'' \<and>
        120 \<notin> set (clean_text r) \<and> 61 \<notin> set (clean_text r) \<and> 49 \<notin> set (clean_text r))"
proof -
  from script_style_text_excluded
      [OF demo_loaded, of "lit ''http://example.com''" "WebDriver 0" fresh]
  obtain r where r: "fst (scrape_website demo_env (lit ''http://example.com'') (WebDriver 0) fresh)
      = Inr r"
    and c: "clean_text r = lit ''Demo Hello'' @ [10] @ lit ''World''"
    and s: "set (clean_text r)
        \<subseteq> insert 10 (\<Union> (set ` set [lit '' Demo '', lit ''Hello  World'']))"
    by (auto simp: demo_text_outside demo_chunks)
  have "120 \<notin> insert 10 (\<Union> (set ` set [lit '' Demo '', lit ''Hello  World'']))"
    and "61 \<notin> insert 10 (\<Union> (set ` set [lit '' Demo '', lit ''Hello  World'']))"
    and "49 \<notin> insert (10::nat) (\<Union> (set ` set [lit '' Demo '', lit ''Hello  World'']))"
    by (simp_all add: lit_def)
  with s have "120 \<notin> set (clean_text r)" "61 \<notin> set (clean_text r)" "49 \<notin> set (clean_text r)"
    by blast+
  with r c demo_loaded show ?thesis by blast
qed



text \<open>
  C4, as amended. If navigation or parsing raises an exception that is an instance of
  \<^verbatim>\<open>Exception\<close>, the function does not let it through: it returns a result whose title, raw
  markup and clean text are empty and whose status is \<^verbatim>\<open>error: \<close> followed by the message
  of the exception. (An exception that does not derive from \<^verbatim>\<open>Exception\<close> is not caught by
  \<^verbatim>\<open>except Exception\<close> and reaches the caller.)
\<close>

theorem exception_becomes_error_result:
  assumes "raised_by env url driver w = Some (Exception e)"
  shows "fst (scrape_website env url driver w)
       = Inr \<lparr>title = [], raw_html = [], clean_text = [], status = lit ''error: '' @ e\<rparr>"
  using assms by (rule scrape_website_raised(1))

text \<open>A navigation that fails with a \<^verbatim>\<open>WebDriverException\<close>.\<close>

theorem exception_becomes_error_result_witness:
  "raised_by offline_env (lit ''http://nowhere.invalid'') (WebDriver 0) fresh
     = Some (Exception (lit ''net::ERR_NAME_NOT_RESOLVED'')) \<and>
   fst (scrape_website offline_env (lit ''http://nowhere.invalid'') (WebDriver 0) fresh)
     = Inr \<lparr>title = [], raw_html = [], clean_text = [],
            status = lit ''error: net::ERR_NAME_NOT_RESOLVED''\<rparr>"
proof -
  have r: "raised_by offline_env (lit ''http://nowhere.invalid'') (WebDriver 0) fresh
     = Some (Exception (lit ''net::ERR_NAME_NOT_RESOLVED''))"
    by (simp add: raised_by_def offline_env_def)
  from exception_becomes_error_result [OF r] r show ?thesis by (simp add: lit_def)
qed

text \<open>
  C4 as it is stated fails: a \<^verbatim>\<open>KeyboardInterrupt\<close> raised during navigation leaves
  \<^verbatim>\<open>scrape_website\<close>, and no result is returned.
\<close>

theorem base_exception_propagates:
  "raised_by interrupted_env (lit ''http://example.com'') (WebDriver 0) fresh
     = Some (BaseException (lit ''KeyboardInterrupt'')) \<and>
   fst (scrape_website interrupted_env (lit ''http://example.com'') (WebDriver 0) fresh)
     = Inl (BaseException (lit ''KeyboardInterrupt''))"
  by (simp add: raised_by_def scrape_website_def scrape_try_def interrupted_env_def Let_def)

text \<open>
  C5. The claim says that a failed start of the browser is fatal for the current request
  only, and that a later request may try again. The script does otherwise: when the first
  call of \<^verbatim>\<open>get_driver\<close> in a process yields no handle, the \<^verbatim>\<open>None\<close> it returns is stored by
  \<^verbatim>\<open>st.cache_resource\<close>; after the first press of the button, and after any further presses,
  \<^verbatim>\<open>get_driver\<close> still yields no handle, and exactly one start of a browser has been
  attempted, the failed one.
\<close>

theorem failed_start_is_never_retried:
  assumes "cache w = None" and "url \<noteq> []" and "fst (get_driver env w) = Inr None"
  shows "fst (get_driver env (presses env (url # urls) w)) = Inr None \<and>
         starts (presses env (url # urls) w) = Suc (starts w)"
proof -
  let ?w1 = "snd (button_handler env url w)"
  from get_driver_miss [OF assms(1,3)] obtain els
    where "cache (snd (get_driver env w)) = Some (None, els)"
      and "starts (snd (get_driver env w)) = Suc (starts w)" by auto
  with button_handler_after_get_driver [OF assms(2), of env w]
  have c: "cache ?w1 = Some (None, els)" and s: "starts ?w1 = Suc (starts w)" by auto
  have "presses env (url # urls) w = presses env urls ?w1" by (simp add: presses_def)
  with presses_frame [OF c, of env urls] s show ?thesis by (simp add: get_driver_hit)
qed

text \<open>
  On the machine where only the first start fails: a start made after the failure would
  return a handle, yet after two presses \<^verbatim>\<open>get_driver\<close> yields none and one start has been
  made.
\<close>

theorem failed_start_is_never_retried_witness:
  "cache fresh = None \<and> lit ''http://example.com'' \<noteq> [] \<and>
   fst (get_driver flaky_env fresh) = Inr None \<and>
   chrome flaky_env (calls (snd (get_driver flaky_env fresh)))
       [lit ''--disable-gpu'', lit ''--headless'', lit ''--no-sandbox'',
        lit ''--disable-dev-shm-usage'', lit ''--disable-extensions'',
        lit ''--disable-web-security''] = Inr (WebDriver 0) \<and>
   fst (get_driver flaky_env
         (presses flaky_env [lit ''http://example.com'', lit ''http://example.com''] fresh))
     = Inr None \<and>
   starts (presses flaky_env [lit ''http://example.com'', lit ''http://example.com''] fresh) = 1"
proof -
  have a: "cache fresh = None" by (simp add: fresh_def)
  have b: "lit ''http://example.com'' \<noteq> []" by (simp add: lit_def)
  have c: "fst (get_driver flaky_env fresh) = Inr None" by (simp add: flaky_get_driver)
  have d: "chrome flaky_env (calls (snd (get_driver flaky_env fresh)))
       [lit ''--disable-gpu'', lit ''--headless'', lit ''--no-sandbox'',
        lit ''--disable-dev-shm-usage'', lit ''--disable-extensions'',
        lit ''--disable-web-security''] = Inr (WebDriver 0)"
    by (simp add: flaky_get_driver) (simp add: flaky_env_def)
  have e: "starts fresh = 0" by (simp add: starts_def fresh_def)
  from failed_start_is_never_retried [OF a b c, of "[lit ''http://example.com'']"] a b c d e
  show ?thesis by simp
qed

text \<open>
  C6. When the first call of \<^verbatim>\<open>get_driver\<close> in a process returns a handle, that call has
  started one browser, and after any presses of the button every further call returns
  the same handle, changes nothing, and no further browser has been started. The same
  holds when the first call is the one the first press of the button makes.
\<close>

theorem handle_created_once:
  assumes "cache w = None" and "fst (get_driver env w) = Inr (Some driver)"
  shows "starts (snd (get_driver env w)) = Suc (starts w) \<and>
         (\<forall>urls. get_driver env (presses env urls (snd (get_driver env w)))
                    = (Inr (Some driver), presses env urls (snd (get_driver env w))) \<and>
                  starts (presses env urls (snd (get_driver env w))) = Suc (starts w)) \<and>
         (\<forall>url urls. url \<noteq> [] \<longrightarrow>
                  get_driver env (presses env (url # urls) w)
                    = (Inr (Some driver), presses env (url # urls) w) \<and>
                  starts (presses env (url # urls) w) = Suc (starts w))"
proof -
  let ?w1 = "snd (get_driver env w)"
  from get_driver_miss [OF assms] have c: "cache ?w1 = Some (Some driver, [])"
    and s: "starts ?w1 = Suc (starts w)" by auto
  have later: "get_driver env (presses env urls w2) = (Inr (Some driver), presses env urls w2)
      \<and> starts (presses env urls w2) = Suc (starts w)"
    if "cache w2 = Some (Some driver, [])" and "starts w2 = Suc (starts w)" for urls w2
    using presses_frame [OF that(1), of env urls] that(2) by (simp add: get_driver_hit)
  have "get_driver env (presses env (url # urls) w)
        = (Inr (Some driver), presses env (url # urls) w)
      \<and> starts (presses env (url # urls) w) = Suc (starts w)"
    if "url \<noteq> []" for url urls
  proof -
    have "presses env (url # urls) w = presses env urls (snd (button_handler env url w))"
      by (simp add: presses_def)
    with later [of "snd (button_handler env url w)" urls]
      button_handler_after_get_driver [OF that, of env w] c s
    show ?thesis by simp
  qed
  with s later [OF c s] show ?thesis by blast
qed

text \<open>In a fresh process, with a browser that starts, and two presses of the button.\<close>

theorem handle_created_once_witness:
  "cache fresh = None \<and> fst (get_driver demo_env fresh) = Inr (Some (WebDriver 0)) \<and>
   starts (snd (get_driver demo_env fresh)) = 1 \<and>
   get_driver demo_env (presses demo_env [lit ''http://example.com'', lit ''http://example.org'']
       (snd (get_driver demo_env fresh)))
     = (Inr (Some (WebDriver 0)),
        presses demo_env [lit ''http://example.com'', lit ''http://example.org'']
          (snd (get_driver demo_env fresh))) \<and>
   fst (get_driver demo_env
         (presses demo_env [lit ''http://example.com'', lit ''http://example.org''] fresh))
     = Inr (Some (WebDriver 0)) \<and>
   starts (presses demo_env [lit ''http://example.com'', lit ''http://example.org''] fresh) = 1"
proof -
  have a: "cache fresh = None" by (simp add: fresh_def)
  have b: "lit ''http://example.com'' \<noteq> []" by (simp add: lit_def)
  have e: "starts fresh = 0" by (simp add: starts_def fresh_def)
  from handle_created_once [OF a demo_get_driver] a b demo_get_driver e show ?thesis by simp
qed

text \<open>
  C7. Whatever result \<^verbatim>\<open>scrape_website\<close> returns, every line of its clean text (the lines as
  \<^verbatim>\<open>splitlines\<close> gives them, the way the script itself takes a text apart) has a character
  that is no whitespace: no line is empty or made of whitespace only. These lines are all
  there is to the clean text: joined by newlines they give it back, so that it neither
  ends with a newline nor holds two in a row.
\<close>

theorem clean_text_has_no_blank_line:
  assumes "fst (scrape_website env url driver w) = Inr r"
  shows "(\<forall>l\<in>set (str_splitlines (clean_text r)). \<exists>c\<in>set l. \<not> isspace c) \<and>
         str_join [10] (str_splitlines (clean_text r)) = clean_text r"
proof -
  from scrape_website_clean_text [OF assms] obtain t
    where "clean_text r = str_join [10] (chunks_of t)" ..
  then show ?thesis using chunk_props(3) by (simp add: splitlines_chunks)
qed

text \<open>The two lines of the example page's clean text.\<close>

theorem clean_text_has_no_blank_line_witness:
  "fst (scrape_website demo_env (lit ''http://example.com'') (WebDriver 0) fresh) = Inr demo_result \<and>
   str_splitlines (clean_text demo_result) = [lit ''Demo Hello'', lit ''World''] \<and>
   (\<exists>c\<in>set (lit ''Demo Hello''). \<not> isspace c) \<and> (\<exists>c\<in>set (lit ''World''). \<not> isspace c) \<and>
   str_join [10] [lit ''Demo Hello'', lit ''World''] = clean_text demo_result"
proof -
  have l: "str_splitlines (clean_text demo_result) = [lit ''Demo Hello'', lit ''World'']"
    by (simp add: demo_result_def lit_def is_linebreak_def)
  from clean_text_has_no_blank_line
    [OF demo_scrape [of "lit ''http://example.com''" "WebDriver 0" fresh]]
  show ?thesis by (simp add: demo_scrape l)
qed

text \<open>
  C8, as amended. On a successful scrape the tab of the raw markup shows the first 3000
  characters of the raw markup, followed by \<^verbatim>\<open>...\<close> exactly when the markup is longer, and
  the whole markup unchanged otherwise. When the clean text is not empty, the tab of the
  clean text shows in its text area the first 5000 characters of the clean text, followed
  by \<^verbatim>\<open>...\<close> exactly when the clean text is longer, and the whole clean text unchanged
  otherwise. When the clean text is empty, that tab shows a warning and no text area.
  \<open>page\<close> is what the handler shows after the scrape has returned.
\<close>

theorem panels_show_truncated_text:
  assumes "url \<noteq> []" and "fst (get_driver env w) = Inr (Some driver)"
    and "fst (scrape_website env url driver (snd (get_driver env w))) = Inr r"
    and "status r = lit ''success''"
  shows "let page = drop (length (shown (snd (scrape_website env url driver
                                               (snd (get_driver env w))))))
                      (shown (snd (button_handler env url w)))
         in St_in_tab (lit ''Raw HTML'')
              (St_code (if length (raw_html r) \<le> 3000 then raw_html r
                        else take 3000 (raw_html r) @ lit ''...'')) \<in> set page \<and>
            (clean_text r \<noteq> [] \<longrightarrow>
               St_in_tab (lit ''Page Content'')
                 (St_text_area (lit ''Clean Text Content:'')
                    (if length (clean_text r) \<le> 5000 then clean_text r
                     else take 5000 (clean_text r) @ lit ''...'')) \<in> set page) \<and>
            (clean_text r = [] \<longrightarrow>
               St_in_tab (lit ''Page Content'')
                 (St_warning (lit ''No text content found on the page.'')) \<in> set page \<and>
               (\<forall>label v. St_in_tab (lit ''Page Content'') (St_text_area label v) \<notin> set page))"
  by (simp add: button_handler_success [OF assms] show_result_def Let_def)

text \<open>The two tabs for the example page, which is shorter than both limits.\<close>

theorem panels_show_truncated_text_witness:
  "lit ''http://example.com'' \<noteq> [] \<and>
   fst (get_driver demo_env fresh) = Inr (Some (WebDriver 0)) \<and>
   fst (scrape_website demo_env (lit ''http://example.com'') (WebDriver 0)
         (snd (get_driver demo_env fresh))) = Inr demo_result \<and>
   status demo_result = lit ''success'' \<and>
   St_in_tab (lit ''Raw HTML'') (St_code demo_markup)
     \<in> set (shown (snd (button_handler demo_env (lit ''http://example.com'') fresh))) \<and>
   St_in_tab (lit ''Page Content'')
       (St_text_area (lit ''Clean Text Content:'') (lit ''Demo Hello'' @ [10] @ lit ''World''))
     \<in> set (shown (snd (button_handler demo_env (lit ''http://example.com'') fresh)))"
proof -
  have a: "lit ''http://example.com'' \<noteq> []" by (simp add: lit_def)
  have c: "fst (scrape_website demo_env (lit ''http://example.com'') (WebDriver 0)
         (snd (get_driver demo_env fresh))) = Inr demo_result"
    by (rule demo_scrape)
  have d: "status demo_result = lit ''success''" by (simp add: demo_result_def)
  have e: "length (raw_html demo_result) \<le> 3000" "raw_html demo_result = demo_markup"
    "length (clean_text demo_result) \<le> 5000" "clean_text demo_result \<noteq> []"
    "clean_text demo_result = lit ''Demo Hello'' @ [10] @ lit ''World''"
    by (simp_all add: demo_result_def demo_markup_def lit_def)
  from panels_show_truncated_text [OF a demo_get_driver c d] e
  have "St_in_tab (lit ''Raw HTML'') (St_code demo_markup)
     \<in> set (shown (snd (button_handler demo_env (lit ''http://example.com'') fresh)))"
   and "St_in_tab (lit ''Page Content'')
       (St_text_area (lit ''Clean Text Content:'') (lit ''Demo Hello'' @ [10] @ lit ''World''))
     \<in> set (shown (snd (button_handler demo_env (lit ''http://example.com'') fresh)))"
    by (auto simp: Let_def dest: in_set_dropD)
  with a demo_get_driver c d show ?thesis by simp
qed

text \<open>
  C8 as it is stated fails for a page without text: the scrape succeeds with an empty
  clean text, and the tab of the clean text shows a warning, not the clean text in a text
  area.
\<close>

theorem empty_page_shows_warning:
  "fst (scrape_website empty_env (lit ''http://example.com'') (WebDriver 0)
         (snd (get_driver empty_env fresh)))
     = Inr \<lparr>title = lit ''No title found'', raw_html = [], clean_text = [],
            status = lit ''success''\<rparr> \<and>
   shown (snd (button_handler empty_env (lit ''http://example.com'') fresh))
     = [St_info (lit ''Loading http://example.com...''),
        St_success (lit ''Scraping completed successfully!''),
        St_tabs [lit ''Page Content'', lit ''Raw HTML'', lit ''Page Title''],
        St_in_tab (lit ''Page Content'') (St_subheader (lit ''Extracted Text Content'')),
        St_in_tab (lit ''Page Content'') (St_warning (lit ''No text content found on the page.'')),
        St_in_tab (lit ''Raw HTML'') (St_subheader (lit ''Raw HTML Source'')),
        St_in_tab (lit ''Raw HTML'') (St_code []),
        St_in_tab (lit ''Page Title'') (St_subheader (lit ''Page Information'')),
        St_in_tab (lit ''Page Title'') (St_write (lit ''**Title:** No title found'')),
        St_in_tab (lit ''Page Title'') (St_write (lit ''**URL:** http://example.com'')),
        St_in_tab (lit ''Page Title'') (St_write (lit ''**Content Length:** 0 characters'')),
        St_in_tab (lit ''Page Title'') (St_write (lit ''**HTML Length:** 0 characters''))]"
proof -
  have g: "get_driver empty_env fresh =
     (Inr (Some (WebDriver 0)),
      \<lparr>cache = Some (Some (WebDriver 0), []), shown = [],
       calls = [Chrome [lit ''--disable-gpu'', lit ''--headless'', lit ''--no-sandbox'',
                        lit ''--disable-dev-shm-usage'', lit ''--disable-extensions'',
                        lit ''--disable-web-security'']]\<rparr>)"
    by (simp add: get_driver_def get_driver_body_def empty_env_def fresh_def Let_def called_def)
  have s: "scrape_website empty_env url driver w
     = (Inr \<lparr>title = lit ''No title found'', raw_html = [], clean_text = [],
            status = lit ''success''\<rparr>,
        called (Page_source driver) (called (Sleep 2) (called (Driver_get driver url)
          (st (St_info (lit ''Loading '' @ url @ lit ''...'')) w))))" for url driver w
    by (simp add: scrape_website_def scrape_try_def empty_env_def Let_def find_tag_def
        get_text_def)
  show ?thesis
    by (simp add: g s button_handler_def scrape_and_show_def show_result_def Let_def)
       (simp add: lit_def)
qed

text \<open>
  C9. On a successful scrape the raw markup of the result is the page source the browser
  handed back, as it was before the \<^verbatim>\<open>script\<close> and \<^verbatim>\<open>style\<close> elements were removed from the
  parsed tree: the removal reaches the clean text only.
\<close>

theorem raw_html_is_page_source:
  assumes "fst (scrape_website env url driver w) = Inr r" and "status r = lit ''success''"
  shows "driver_page_source env (calls w @ [Driver_get driver url, Sleep 2]) driver
       = Inr (raw_html r)"
proof -
  from raised_or_loaded [of env url driver w] show ?thesis
  proof (elim disjE exE)
    fix x assume x: "raised_by env url driver w = Some x"
    show ?thesis
    proof (cases x)
      case (Exception e)
      with x assms scrape_website_raised(1) [of env url driver w e] error_is_no_success [of e]
      show ?thesis by auto
    next
      case (BaseException e)
      with x assms scrape_website_raised(2) [of env url driver w e] show ?thesis by simp
    qed
  next
    fix markup soup assume l: "page_loaded env url driver w markup soup"
    from scrape_website_loaded [OF l] assms have "raw_html r = markup" by auto
    with l show ?thesis by (simp add: page_loaded_def)
  qed
qed

text \<open>
  The example page: the script's \<^verbatim>\<open>x=1\<close> is still in the raw markup of the result, and is
  not in its clean text.
\<close>

theorem raw_html_is_page_source_witness:
  "fst (scrape_website demo_env (lit ''http://example.com'') (WebDriver 0) fresh) = Inr demo_result \<and>
   status demo_result = lit ''success'' \<and>
   driver_page_source demo_env
     (calls fresh @ [Driver_get (WebDriver 0) (lit ''http://example.com''), Sleep 2]) (WebDriver 0)
     = Inr (raw_html demo_result) \<and>
   raw_html demo_result
     = lit ''<html><head><title> Demo </title></head><body><script>'' @ lit ''x=1''
       @ lit ''</script><p>Hello  World</p></body></html>'' \<and>
   clean_text demo_result = lit ''Demo Hello'' @ [10] @ lit ''World''"
proof -
  have s: "status demo_result = lit ''success''" by (simp add: demo_result_def)
  from raw_html_is_page_source
    [OF demo_scrape [of "lit ''http://example.com''" "WebDriver 0" fresh] s]
  show ?thesis by (simp add: demo_scrape s) (simp add: demo_result_def demo_markup_def lit_def)
qed

text \<open>
  C10. When the button is pressed with an empty address, the handler shows the warning that
  asks for a valid address and does nothing else: no handle is obtained, no call is made
  on a browser, and the cache is as before.
\<close>

theorem empty_url_only_warns:
  "button_handler env [] w
     = (None, w\<lparr>shown := shown w @ [St_warning (lit ''Please enter a valid URL.'')]\<rparr>)"
  by (simp add: button_handler_def st_def)

text \<open>In a fresh process: the warning is all there is, and nothing was called.\<close>

theorem empty_url_only_warns_witness:
  "button_handler demo_env [] fresh
     = (None, \<lparr>cache = None, shown = [St_warning (lit ''Please enter a valid URL.'')],
              calls = []\<rparr>)"
  using empty_url_only_warns [of demo_env fresh] by (simp add: fresh_def)

end
